theory Spec2Isabelle
  imports Main
begin

section \<open>JavaScript primitives used by the server and the client\<close>

text \<open>
  \<^verbatim>\<open>s.split(sep)\<close> for a one-character separator: the pieces between the separators, so the
  empty string splits into one empty piece and a string with \<open>k\<close> separators into
  \<open>k + 1\<close> pieces.
\<close>

fun split_on :: "char \<Rightarrow> string \<Rightarrow> string list" where
  "split_on sep [] = [[]]"
| "split_on sep (c # cs) =
     (if c = sep then [] # split_on sep cs
      else (case split_on sep cs of
              [] \<Rightarrow> [[c]]
            | w # ws \<Rightarrow> (c # w) # ws))"

text \<open>\<^verbatim>\<open>content.split('\n').length\<close>\<close>

definition line_count :: "string \<Rightarrow> nat" where
  "line_count s = length (split_on (CHR 0x0A) s)"

text \<open>
  Number to string, as in the property keys of an array (\<^verbatim>\<open>Object.keys([a, b])\<close> is
  \<^verbatim>\<open>["0", "1"]\<close>) and in the template literal \<^verbatim>\<open>`HTTP ${response.status}`\<close>.
\<close>

fun string_of_nat :: "nat \<Rightarrow> string" where
  "string_of_nat n =
     (if n < 10 then [''0123456789'' ! n]
      else string_of_nat (n div 10) @ [''0123456789'' ! (n mod 10)])"

declare string_of_nat.simps [simp del]

section \<open>The \<^verbatim>\<open>files\<close> field of a snapshot diff\<close>

text \<open>
  The \<^verbatim>\<open>files\<close> field of a diff is JSON. It has the current shape, an object from path to
  content (kept here as the list of its own properties in enumeration order), or the
  legacy shape, an array of objects \<^verbatim>\<open>{path, content}\<close> (here \<open>FileObj path content\<close>), or it
  is absent.
\<close>

datatype file_obj = FileObj string string

datatype files_json =
    FilesAbsent
  | FilesRecord "(string \<times> string) list"
  | FilesArray "file_obj list"

text \<open>
  What a property of \<^verbatim>\<open>files\<close> can hold: a content string, an array element or an inherited
  built-in (both objects for \<^verbatim>\<open>typeof\<close>), the \<^verbatim>\<open>length\<close> of an array, or nothing.
\<close>

datatype jsval = JUndefined | JString string | JNumber nat | JObject

fun truthy :: "jsval \<Rightarrow> bool" where
  "truthy JUndefined = False"
| "truthy (JString s) = (s \<noteq> [])"
| "truthy (JNumber n) = (n \<noteq> 0)"
| "truthy JObject = True"

text \<open>\<^verbatim>\<open>req.body.diff?.files || {}\<close>\<close>

fun or_empty :: "files_json \<Rightarrow> files_json" where
  "or_empty FilesAbsent = FilesRecord []"
| "or_empty f = f"

text \<open>\<^verbatim>\<open>Object.entries\<close>, \<^verbatim>\<open>Object.keys\<close> and \<^verbatim>\<open>Object.values\<close>: an array's keys are its indices.\<close>

fun entries :: "files_json \<Rightarrow> (string \<times> jsval) list" where
  "entries FilesAbsent = []"
| "entries (FilesRecord es) = map (\<lambda>(p, c). (p, JString c)) es"
| "entries (FilesArray xs) = zip (map string_of_nat [0..<length xs]) (map (\<lambda>_. JObject) xs)"

definition keys :: "files_json \<Rightarrow> string list" where
  "keys f = map fst (entries f)"

definition values_of :: "files_json \<Rightarrow> jsval list" where
  "values_of f = map snd (entries f)"

text \<open>
  The property names every object inherits from \<^verbatim>\<open>Object.prototype\<close>, and those an array
  inherits from \<^verbatim>\<open>Array.prototype\<close> (ECMAScript 2023, which Node.js 20 implements).
\<close>

definition object_prototype_keys :: "string list" where
  "object_prototype_keys =
     [''constructor'', ''hasOwnProperty'', ''isPrototypeOf'', ''propertyIsEnumerable'',
      ''toLocaleString'', ''toString'', ''valueOf'', ''__proto__'', ''__defineGetter__'',
      ''__defineSetter__'', ''__lookupGetter__'', ''__lookupSetter__'']"

definition array_prototype_keys :: "string list" where
  "array_prototype_keys =
     [''at'', ''concat'', ''copyWithin'', ''entries'', ''every'', ''fill'', ''filter'',
      ''find'', ''findIndex'', ''findLast'', ''findLastIndex'', ''flat'', ''flatMap'',
      ''forEach'', ''includes'', ''indexOf'', ''join'', ''keys'', ''lastIndexOf'', ''map'',
      ''pop'', ''push'', ''reduce'', ''reduceRight'', ''reverse'', ''shift'', ''slice'',
      ''some'', ''sort'', ''splice'', ''toReversed'', ''toSorted'', ''toSpliced'',
      ''unshift'', ''values'', ''with'']"

text \<open>The property read \<^verbatim>\<open>obj[key]\<close>: own properties first, then the prototype chain.\<close>

fun js_get :: "files_json \<Rightarrow> string \<Rightarrow> jsval" where
  "js_get FilesAbsent k = JUndefined"
| "js_get (FilesRecord es) k =
     (case map_of (entries (FilesRecord es)) k of
        Some v \<Rightarrow> v
      | None \<Rightarrow> if k \<in> set object_prototype_keys then JObject else JUndefined)"
| "js_get (FilesArray xs) k =
     (case map_of (entries (FilesArray xs)) k of
        Some v \<Rightarrow> v
      | None \<Rightarrow>
          if k = ''length'' then JNumber (length xs)
          else if k \<in> set array_prototype_keys \<or> k \<in> set object_prototype_keys then JObject
          else JUndefined)"

section \<open>Snapshot capture: \<^verbatim>\<open>POST /api/sessions/:id/snapshots\<close>\<close>

datatype error = TypeError

record metadata =
  linesChanged :: nat
  filesModified :: "string list"

record diff =
  files :: files_json
  metadata :: metadata

text \<open>\<^verbatim>\<open>typeof content === 'string' ? content.split('\n').length : 0\<close>\<close>

fun string_lines :: "jsval \<Rightarrow> nat" where
  "string_lines (JString s) = line_count s"
| "string_lines v = 0"

text \<open>\<^verbatim>\<open>prevFiles[path] || ''\<close>\<close>

definition prev_content :: "files_json \<Rightarrow> string \<Rightarrow> jsval" where
  "prev_content prevFiles p =
     (let v = js_get prevFiles p in if truthy v then v else JString [])"

text \<open>\<^verbatim>\<open>Math.abs(currentLines - prevLines)\<close>\<close>

definition abs_diff :: "nat \<Rightarrow> nat \<Rightarrow> nat" where
  "abs_diff a b = nat \<bar>int a - int b\<bar>"

text \<open>
  The first loop, over \<^verbatim>\<open>Object.entries(filesData)\<close>. It calls \<^verbatim>\<open>split\<close> on the content
  without a type test, which throws on a content that is not a string.
\<close>

fun compare_loop :: "files_json \<Rightarrow> (string \<times> jsval) list \<Rightarrow> nat \<Rightarrow> error + nat" where
  "compare_loop prevFiles [] acc = Inr acc"
| "compare_loop prevFiles ((p, v) # rest) acc =
     (case v of
        JString c \<Rightarrow>
          compare_loop prevFiles rest
            (acc + abs_diff (line_count c) (string_lines (prev_content prevFiles p)))
      | _ \<Rightarrow> Inl TypeError)"

text \<open>The second loop, over \<^verbatim>\<open>Object.entries(prevFiles)\<close>, guarded by \<^verbatim>\<open>!filesData[path]\<close>.\<close>

fun removed_loop :: "files_json \<Rightarrow> (string \<times> jsval) list \<Rightarrow> nat \<Rightarrow> nat" where
  "removed_loop filesData [] acc = acc"
| "removed_loop filesData ((p, v) # rest) acc =
     removed_loop filesData rest
       (if \<not> truthy (js_get filesData p) then acc + string_lines v else acc)"

text \<open>
  The handler up to \<^verbatim>\<open>normalizedDiff\<close>. The first argument is the \<^verbatim>\<open>files\<close> field of the most
  recent stored snapshot of the session, \<open>None\<close> when the session has no snapshot yet; the
  second is \<^verbatim>\<open>req.body.diff?.files\<close>. An exception ends the handler in its \<^verbatim>\<open>catch\<close>
  (status 400), here \<open>Inl\<close>. The \<^verbatim>\<open>diff\<close> column is \<^verbatim>\<open>jsonb\<close>, so the schema accepts every
  normalized diff.
\<close>

definition snapshot_diff :: "files_json option \<Rightarrow> files_json \<Rightarrow> error + diff" where
  "snapshot_diff previous body_files =
     (let filesData = or_empty body_files;
          modified = keys filesData;
          changed =
            (case previous of
               Some prev \<Rightarrow>
                 (let prevFiles = or_empty prev in
                  case compare_loop prevFiles (entries filesData) 0 of
                    Inl e \<Rightarrow> Inl e
                  | Inr n \<Rightarrow> Inr (removed_loop filesData (entries prevFiles) n))
             | None \<Rightarrow> Inr (foldl (\<lambda>sum v. sum + string_lines v) 0 (values_of filesData)))
      in case changed of
           Inl e \<Rightarrow> Inl e
         | Inr n \<Rightarrow>
             Inr \<lparr>files = filesData,
                  metadata = \<lparr>linesChanged = n, filesModified = modified\<rparr>\<rparr>)"

text \<open>
  The algorithm of the specification, in its words, on File Sets (path to content, unique
  paths): with a previous File Set, every path of the new set adds
  \<open>|currentLines - previousLines|\<close> when the previous set has it and its full line count
  when it has not, and every path of the previous set that the new set lacks adds its full
  previous line count; without a previous File Set, the line counts of the new set add up.
\<close>

definition spec_linesChanged ::
  "(string \<times> string) list option \<Rightarrow> (string \<times> string) list \<Rightarrow> nat" where
  "spec_linesChanged previous new =
     (case previous of
        None \<Rightarrow> sum_list (map (\<lambda>(p, c). line_count c) new)
      | Some prev \<Rightarrow>
          sum_list (map (\<lambda>(p, c).
                      case map_of prev p of
                        Some pc \<Rightarrow> abs_diff (line_count c) (line_count pc)
                      | None \<Rightarrow> line_count c) new)
          + sum_list (map (\<lambda>(p, pc).
                      if map_of new p = None then line_count pc else 0) prev))"

definition spec_filesModified :: "(string \<times> string) list \<Rightarrow> string list" where
  "spec_filesModified new = map fst new"

section \<open>The WebSocket router\<close>

text \<open>
  A connection is one \<^verbatim>\<open>WebSocket\<close> object of the server; \<^verbatim>\<open>currentSessionId\<close> and \<^verbatim>\<open>userId\<close>
  are the two variables its handlers close over (\<open>None\<close> is \<^verbatim>\<open>null\<close> or \<^verbatim>\<open>undefined\<close>).
\<close>

type_synonym conn = nat

datatype ready_state = CONNECTING | OPEN | CLOSING | CLOSED

record conn_vars =
  currentSessionId :: "string option"
  userId :: "string option"

text \<open>The messages the server sends; the last field is \<^verbatim>\<open>Date.now()\<close>.\<close>

datatype server_msg =
    ParticipantJoined "string option" nat
  | EditorChangeOut "string option" string string nat
  | CursorMoveOut "string option" string string nat
  | ParticipantLeft "string option" nat

text \<open>
  The messages a client sends, after \<^verbatim>\<open>JSON.parse\<close>: \<open>JoinSession sessionId userId\<close> with
  absent fields as \<open>None\<close>, \<open>EditorChange code filePath\<close>, \<open>CursorMove position filePath\<close>,
  a message of a type the \<^verbatim>\<open>switch\<close> has no case for, and a payload that makes the handler
  throw into its \<^verbatim>\<open>catch\<close> (\<^verbatim>\<open>JSON.parse\<close> rejects it, or it is \<^verbatim>\<open>null\<close>).
\<close>

datatype client_msg =
    JoinSession "string option" "string option"
  | EditorChange string string
  | CursorMove string string
  | LeaveSession
  | OtherType
  | Malformed

text \<open>
  The state the handlers share: the map \<^verbatim>\<open>activeConnections\<close> (a \<^verbatim>\<open>Set\<close> is kept as the list of
  its members in insertion order, which is the order \<^verbatim>\<open>forEach\<close> visits them), every
  connection's variables and \<^verbatim>\<open>readyState\<close>, the calls of \<^verbatim>\<open>client.send\<close> in order, and the
  number of calls of \<^verbatim>\<open>console.error\<close>.
\<close>

record router =
  activeConnections :: "string \<rightharpoonup> conn list"
  vars :: "conn \<Rightarrow> conn_vars"
  readyState :: "conn \<Rightarrow> ready_state"
  sent :: "(conn \<times> server_msg) list"
  logged :: nat

definition init_router :: router where
  "init_router =
     \<lparr>activeConnections = Map.empty,
      vars = (\<lambda>_. \<lparr>currentSessionId = None, userId = None\<rparr>),
      readyState = (\<lambda>_. OPEN),
      sent = [],
      logged = 0\<rparr>"

text \<open>Truthiness of a string or \<^verbatim>\<open>null\<close>: the empty string is falsy.\<close>

fun truthy_str :: "string option \<Rightarrow> bool" where
  "truthy_str None = False"
| "truthy_str (Some s) = (s \<noteq> [])"

text \<open>\<^verbatim>\<open>Set.prototype.add\<close> and \<^verbatim>\<open>Set.prototype.delete\<close>\<close>

definition set_add :: "conn \<Rightarrow> conn list \<Rightarrow> conn list" where
  "set_add c g = (if c \<in> set g then g else g @ [c])"

definition set_delete :: "conn \<Rightarrow> conn list \<Rightarrow> conn list" where
  "set_delete c g = filter (\<lambda>x. x \<noteq> c) g"

definition broadcast :: "string \<Rightarrow> server_msg \<Rightarrow> conn option \<Rightarrow> router \<Rightarrow> router" where
  "broadcast sessionId message exclude st =
     (case activeConnections st sessionId of
        None \<Rightarrow> st
      | Some connections \<Rightarrow>
          st\<lparr>sent := sent st @
                map (\<lambda>client. (client, message))
                  (filter (\<lambda>client. Some client \<noteq> exclude \<and> readyState st client = OPEN)
                     connections)\<rparr>)"

text \<open>
  The block shared by \<^verbatim>\<open>leave-session\<close> and \<^verbatim>\<open>close\<close>: delete the connection from the group of
  the session and delete the group when it has become empty.
\<close>

definition release :: "string \<Rightarrow> conn \<Rightarrow> router \<Rightarrow> router" where
  "release sessionId ws st =
     (case activeConnections st sessionId of
        None \<Rightarrow> st
      | Some connections \<Rightarrow>
          (let connections' = set_delete ws connections in
           if length connections' = 0
           then st\<lparr>activeConnections := (activeConnections st)(sessionId := None)\<rparr>
           else st\<lparr>activeConnections := (activeConnections st)(sessionId \<mapsto> connections')\<rparr>))"

text \<open>\<^verbatim>\<open>ws.on('message', ...)\<close>, one case of the \<^verbatim>\<open>switch\<close> per equation.\<close>

fun on_message :: "conn \<Rightarrow> nat \<Rightarrow> client_msg \<Rightarrow> router \<Rightarrow> router" where
  "on_message ws now (JoinSession sid uid) st =
     (let user = (if truthy_str uid then uid else Some ''anonymous'');
          st1 = st\<lparr>vars := (vars st)(ws := \<lparr>currentSessionId = sid, userId = user\<rparr>)\<rparr>
      in case sid of
           None \<Rightarrow> st1
         | Some s \<Rightarrow>
             if s = [] then st1
             else
               (let st2 = (if activeConnections st1 s = None
                           then st1\<lparr>activeConnections := (activeConnections st1)(s \<mapsto> [])\<rparr>
                           else st1);
                    st3 = (case activeConnections st2 s of
                             None \<Rightarrow> st2
                           | Some g \<Rightarrow>
                               st2\<lparr>activeConnections :=
                                     (activeConnections st2)(s \<mapsto> set_add ws g)\<rparr>)
                in broadcast s (ParticipantJoined user now) (Some ws) st3))"
| "on_message ws now (EditorChange code filePath) st =
     (case currentSessionId (vars st ws) of
        None \<Rightarrow> st
      | Some s \<Rightarrow>
          if s = [] then st
          else broadcast s (EditorChangeOut (userId (vars st ws)) code filePath now) (Some ws) st)"
| "on_message ws now (CursorMove position filePath) st =
     (case currentSessionId (vars st ws) of
        None \<Rightarrow> st
      | Some s \<Rightarrow>
          if s = [] then st
          else broadcast s (CursorMoveOut (userId (vars st ws)) position filePath now) (Some ws) st)"
| "on_message ws now LeaveSession st =
     (let st1 = (case currentSessionId (vars st ws) of
                   None \<Rightarrow> st
                 | Some s \<Rightarrow>
                     if s = [] then st
                     else release s ws
                            (broadcast s (ParticipantLeft (userId (vars st ws)) now) (Some ws) st))
      in st1\<lparr>vars := (vars st1)(ws := \<lparr>currentSessionId = None, userId = None\<rparr>)\<rparr>)"
| "on_message ws now OtherType st = st"
| "on_message ws now Malformed st = st\<lparr>logged := logged st + 1\<rparr>"

text \<open>
  \<^verbatim>\<open>ws.on('close', ...)\<close>. The transport has set \<^verbatim>\<open>readyState\<close> to \<^verbatim>\<open>CLOSED\<close> when it emits the
  event.
\<close>

definition on_close :: "conn \<Rightarrow> nat \<Rightarrow> router \<Rightarrow> router" where
  "on_close ws now st =
     (let st0 = st\<lparr>readyState := (readyState st)(ws := CLOSED)\<rparr> in
      case currentSessionId (vars st0 ws) of
        None \<Rightarrow> st0
      | Some s \<Rightarrow>
          if s \<noteq> [] \<and> truthy_str (userId (vars st0 ws))
          then broadcast s (ParticipantLeft (userId (vars st0 ws)) now) (Some ws)
                 (release s ws st0)
          else st0)"

text \<open>An event is a message or the close of one connection, at a time; the router runs them in order.\<close>

datatype event = Message conn nat client_msg | Close conn nat

fun step :: "event \<Rightarrow> router \<Rightarrow> router" where
  "step (Message ws now m) st = on_message ws now m st"
| "step (Close ws now) st = on_close ws now st"

fun run :: "router \<Rightarrow> event list \<Rightarrow> router" where
  "run st [] = st"
| "run st (e # es) = run (step e st) es"

text \<open>The group of a session, empty when the map has no entry for it.\<close>

definition group :: "router \<Rightarrow> string \<Rightarrow> conn list" where
  "group st s = (case activeConnections st s of None \<Rightarrow> [] | Some g \<Rightarrow> g)"

text \<open>What a call has sent: the calls of \<^verbatim>\<open>client.send\<close> it added.\<close>

definition delivered :: "router \<Rightarrow> router \<Rightarrow> (conn \<times> server_msg) list" where
  "delivered before after = drop (length (sent before)) (sent after)"

section \<open>The restore controller: \<^verbatim>\<open>handleRestoreSnapshot\<close>\<close>

text \<open>A file as the editor takes it.\<close>

record editor_file =
  name :: string
  path :: string
  type :: string
  content :: string

text \<open>\<^verbatim>\<open>path.split('/').pop() || path\<close>\<close>

definition file_name :: "string \<Rightarrow> string" where
  "file_name p = (let l = last (split_on (CHR ''/'') p) in if l = [] then p else l)"

text \<open>
  The read-side normalization of \<^verbatim>\<open>diffData?.files\<close>: the legacy array is mapped element by
  element, the object entry by entry; an absent field leaves the list empty.
\<close>

fun filesFromSnapshot :: "files_json \<Rightarrow> editor_file list" where
  "filesFromSnapshot FilesAbsent = []"
| "filesFromSnapshot (FilesArray xs) =
     map (\<lambda>file. case file of FileObj p c \<Rightarrow>
            \<lparr>name = file_name p, path = p, type = ''file'', content = c\<rparr>) xs"
| "filesFromSnapshot (FilesRecord es) =
     map (\<lambda>(p, c). \<lparr>name = file_name p, path = p, type = ''file'', content = c\<rparr>) es"

text \<open>The three pieces of React state the handler sets.\<close>

record view_state =
  snapshotFiles :: "editor_file list"
  isViewingSnapshot :: bool
  currentSnapshotId :: "string option"

text \<open>
  The snapshot a response carries (the fields the handler reads), and the outcome of
  \<^verbatim>\<open>fetch\<close> and \<^verbatim>\<open>response.json()\<close>: rejected with an \<^verbatim>\<open>Error\<close> of some message, or a response
  with \<^verbatim>\<open>ok\<close>, \<^verbatim>\<open>status\<close>, \<^verbatim>\<open>statusText\<close> and the body.
\<close>

record snapshot =
  diff_files :: files_json
  timestamp :: string

datatype fetch_result =
    Rejected string
  | Response bool nat string snapshot

text \<open>
  The toast the handler shows: the success toast with the snapshot's timestamp, or the
  destructive toast with the message of the error.
\<close>

datatype toast = SnapshotLoaded string | ErrorToast string

definition handleRestoreSnapshot ::
  "view_state \<Rightarrow> string \<Rightarrow> fetch_result \<Rightarrow> view_state \<times> toast" where
  "handleRestoreSnapshot st snapshotId r =
     (case r of
        Rejected msg \<Rightarrow> (st, ErrorToast msg)
      | Response ok status statusText snap \<Rightarrow>
          if \<not> ok
          then (st, ErrorToast (''HTTP '' @ string_of_nat status @ '': '' @ statusText))
          else
            (let fs = filesFromSnapshot (diff_files snap) in
             if length fs = 0 then (st, ErrorToast ''Snapshot has no files'')
             else (st\<lparr>snapshotFiles := fs,
                      isViewingSnapshot := True,
                      currentSnapshotId := Some snapshotId\<rparr>,
                   SnapshotLoaded (timestamp snap))))"

text \<open>
  The File Set a list of editor files stands for, and the one a legacy array stands for:
  the set of their path and content pairs.
\<close>

definition file_set :: "editor_file list \<Rightarrow> (string \<times> string) set" where
  "file_set fs = set (map (\<lambda>f. (path f, content f)) fs)"

fun path_content :: "file_obj \<Rightarrow> string \<times> string" where
  "path_content (FileObj p c) = (p, c)"

section \<open>Scenarios\<close>

text \<open>
  Connection 2 joins session A, connection 1 joins session A and then, without leaving,
  session B.
\<close>

definition rejoin_events :: "event list" where
  "rejoin_events =
     [Message 2 1 (JoinSession (Some ''A'') (Some ''u2'')),
      Message 1 2 (JoinSession (Some ''A'') (Some ''u1'')),
      Message 1 3 (JoinSession (Some ''B'') (Some ''u1''))]"

text \<open>The same, and then the transport of connection 1 closes.\<close>

definition rejoin_close_events :: "event list" where
  "rejoin_close_events = rejoin_events @ [Close 1 4]"

text \<open>Connections 1 and 2 join session s1.\<close>

definition two_peers_events :: "event list" where
  "two_peers_events =
     [Message 1 1 (JoinSession (Some ''s1'') (Some ''u1'')),
      Message 2 2 (JoinSession (Some ''s1'') (Some ''u2''))]"

section \<open>Invariants of the router\<close>

text \<open>No group of the map is empty.\<close>

definition groups_nonempty :: "router \<Rightarrow> bool" where
  "groups_nonempty st = (\<forall>s g. activeConnections st s = Some g \<longrightarrow> g \<noteq> [])"

text \<open>A connection with a session has a user: \<^verbatim>\<open>join-session\<close> sets both variables.\<close>

definition joined_has_user :: "router \<Rightarrow> bool" where
  "joined_has_user st =
     (\<forall>c. truthy_str (currentSessionId (vars st c)) \<longrightarrow> truthy_str (userId (vars st c)))"

section \<open>Snapshot capture: results\<close>

lemma foldl_objects_zero:
  "foldl (\<lambda>sum v. sum + string_lines v) acc (map (\<lambda>_. JObject) xs) = acc"
  by (induction xs arbitrary: acc) simp_all

lemma foldl_string_lines:
  "foldl (\<lambda>sum v. sum + string_lines v) acc (values_of (FilesRecord new)) =
     acc + sum_list (map (\<lambda>(p, c). line_count c) new)"
  by (induction new arbitrary: acc) (auto simp: values_of_def)

lemma map_of_record_entries:
  "map_of (map (\<lambda>(p, c). (p, JString c)) es) k = map_option JString (map_of es k)"
  by (induction es) auto

lemma compare_loop_sum:
  "compare_loop prevFiles (map (\<lambda>(p, c). (p, JString c)) new) acc =
     Inr (acc + sum_list (map (\<lambda>(p, c).
            abs_diff (line_count c) (string_lines (prev_content prevFiles p))) new))"
  by (induction new arbitrary: acc) auto

lemma removed_loop_sum:
  "removed_loop filesData (map (\<lambda>(p, c). (p, JString c)) prev) acc =
     acc + sum_list (map (\<lambda>(p, pc).
            if truthy (js_get filesData p) then 0 else line_count pc) prev)"
  by (induction prev arbitrary: acc) auto

text \<open>
  The first capture of a session agrees with the specification: the line counts of the
  new File Set add up, and \<^verbatim>\<open>filesModified\<close> lists its paths.
\<close>

lemma first_capture_matches_spec:
  "snapshot_diff None (FilesRecord new) =
     Inr \<lparr>files = FilesRecord new,
          metadata = \<lparr>linesChanged = spec_linesChanged None new,
                      filesModified = spec_filesModified new\<rparr>\<rparr>"
  by (simp add: snapshot_diff_def keys_def foldl_string_lines
      spec_linesChanged_def spec_filesModified_def comp_def case_prod_beta)

text \<open>What the two loops compute on two File Sets.\<close>

lemma capture_lines_changed:
  "snapshot_diff (Some (FilesRecord prev)) (FilesRecord new) =
     Inr \<lparr>files = FilesRecord new,
          metadata =
            \<lparr>linesChanged =
               sum_list (map (\<lambda>(p, c).
                 abs_diff (line_count c) (string_lines (prev_content (FilesRecord prev) p))) new)
               + sum_list (map (\<lambda>(p, pc).
                 if truthy (js_get (FilesRecord new) p) then 0 else line_count pc) prev),
             filesModified = map fst new\<rparr>\<rparr>"
  by (simp add: snapshot_diff_def keys_def compare_loop_sum removed_loop_sum comp_def
      case_prod_beta)

text \<open>
  With a previous File Set the handler agrees with the specification when the capture adds
  no file and empties none (and no previous path is a property name that every object
  inherits).
\<close>

lemma capture_matches_spec_when_nothing_added:
  assumes present: "\<forall>(p, c) \<in> set new. map_of prev p \<noteq> None \<and> c \<noteq> []"
    and plain: "\<forall>(p, pc) \<in> set prev. p \<notin> set object_prototype_keys"
  shows "snapshot_diff (Some (FilesRecord prev)) (FilesRecord new) =
     Inr \<lparr>files = FilesRecord new,
          metadata = \<lparr>linesChanged = spec_linesChanged (Some prev) new,
                      filesModified = spec_filesModified new\<rparr>\<rparr>"
proof -
  have a: "abs_diff (line_count c) (string_lines (prev_content (FilesRecord prev) p)) =
      (case map_of prev p of
         Some pc \<Rightarrow> abs_diff (line_count c) (line_count pc)
       | None \<Rightarrow> line_count c)" if new: "(p, c) \<in> set new" for p c
  proof -
    obtain pc where "map_of prev p = Some pc"
      using present new by auto
    then show ?thesis
      by (simp add: prev_content_def map_of_record_entries)
  qed
  have b: "(if truthy (js_get (FilesRecord new) p) then 0 else line_count pc) =
      (if map_of new p = None then line_count pc else 0)" if "(p, pc) \<in> set prev" for p pc
  proof (cases "map_of new p")
    case None
    moreover have "p \<notin> set object_prototype_keys"
      using plain that by auto
    ultimately show ?thesis
      by (simp add: map_of_record_entries)
  next
    case (Some c)
    then have "(p, c) \<in> set new"
      by (rule map_of_SomeD)
    then have "c \<noteq> []"
      using present by auto
    with Some show ?thesis
      by (simp add: map_of_record_entries)
  qed
  have sa: "sum_list (map (\<lambda>(p, c).
        abs_diff (line_count c) (string_lines (prev_content (FilesRecord prev) p))) new) =
      sum_list (map (\<lambda>(p, c).
        case map_of prev p of
          Some pc \<Rightarrow> abs_diff (line_count c) (line_count pc)
        | None \<Rightarrow> line_count c) new)"
    by (rule arg_cong [where f = sum_list], rule map_cong) (auto simp: a)
  have sb: "sum_list (map (\<lambda>(p, pc).
        if truthy (js_get (FilesRecord new) p) then 0 else line_count pc) prev) =
      sum_list (map (\<lambda>(p, pc). if map_of new p = None then line_count pc else 0) prev)"
    by (rule arg_cong [where f = sum_list], rule map_cong) (auto simp: b simp del: js_get.simps)
  show ?thesis
    unfolding capture_lines_changed sa sb
    by (simp add: spec_linesChanged_def spec_filesModified_def)
qed

text \<open>
  C1. The claim: with a previous File Set, \<^verbatim>\<open>linesChanged\<close> is the specification's sum, in
  which a path present only in the new File Set adds its full line count. The handler reads
  the missing previous content as the empty string, which \<^verbatim>\<open>split\<close> counts as one line: with
  the previous File Set \<^verbatim>\<open>{"b.ts": "x"}\<close> and the new one \<^verbatim>\<open>{"b.ts": "x", "a.ts": "l1\nl2"}\<close> it
  records \<^verbatim>\<open>linesChanged\<close> 1, where the specification's algorithm gives 2.
\<close>

theorem capture_added_file_off_by_one:
  "snapshot_diff (Some (FilesRecord [(''b.ts'', ''x'')]))
       (FilesRecord [(''b.ts'', ''x''), (''a.ts'', ''l1\<newline>l2'')]) =
     Inr \<lparr>files = FilesRecord [(''b.ts'', ''x''), (''a.ts'', ''l1\<newline>l2'')],
          metadata = \<lparr>linesChanged = 1, filesModified = [''b.ts'', ''a.ts'']\<rparr>\<rparr>
   \<and> spec_linesChanged (Some [(''b.ts'', ''x'')])
         [(''b.ts'', ''x''), (''a.ts'', ''l1\<newline>l2'')] = 2"
  by (simp add: snapshot_diff_def keys_def line_count_def prev_content_def abs_diff_def
      object_prototype_keys_def spec_linesChanged_def)

text \<open>
  The guard \<^verbatim>\<open>!filesData[path]\<close> of the second loop also holds for a file that is present
  with empty content, so a file emptied by the capture is counted as changed and as removed.
\<close>

lemma capture_emptied_file_counted_twice:
  "snapshot_diff (Some (FilesRecord [(''a.ts'', ''x\<newline>y'')])) (FilesRecord [(''a.ts'', [])]) =
     Inr \<lparr>files = FilesRecord [(''a.ts'', [])],
          metadata = \<lparr>linesChanged = 3, filesModified = [''a.ts'']\<rparr>\<rparr>
   \<and> spec_linesChanged (Some [(''a.ts'', ''x\<newline>y'')]) [(''a.ts'', [])] = 1"
  by (simp add: snapshot_diff_def keys_def line_count_def prev_content_def abs_diff_def
      object_prototype_keys_def spec_linesChanged_def)

text \<open>
  C10. A capture whose \<^verbatim>\<open>files\<close> is a legacy array, in a session without a previous
  snapshot, yields a diff: \<^verbatim>\<open>filesModified\<close> is the list of the array's indices as strings
  and \<^verbatim>\<open>linesChanged\<close> is 0.
\<close>

theorem legacy_capture_degenerate_metadata:
  "snapshot_diff None (FilesArray xs) =
     Inr \<lparr>files = FilesArray xs,
          metadata = \<lparr>linesChanged = 0,
                      filesModified = map string_of_nat [0..<length xs]\<rparr>\<rparr>"
  by (simp add: snapshot_diff_def keys_def values_of_def foldl_objects_zero)

theorem legacy_capture_degenerate_metadata_witness:
  "snapshot_diff None (FilesArray [FileObj ''a.ts'' ''x'', FileObj ''b.ts'' ''y\<newline>z'']) =
     Inr \<lparr>files = FilesArray [FileObj ''a.ts'' ''x'', FileObj ''b.ts'' ''y\<newline>z''],
          metadata = \<lparr>linesChanged = 0, filesModified = [''0'', ''1'']\<rparr>\<rparr>"
  using legacy_capture_degenerate_metadata
    [of "[FileObj ''a.ts'' ''x'', FileObj ''b.ts'' ''y\<newline>z'']"]
  by (simp add: string_of_nat.simps upt_rec)

section \<open>The restore controller: results\<close>

text \<open>
  C6. A snapshot whose normalized file list is empty, in either shape or with the field
  absent, makes the restore fail: the handler shows the destructive toast with the message
  "Snapshot has no files" (or, when the response is not OK, the HTTP error) and leaves the
  view state as it was, so the editor never switches to an empty read-only view.
\<close>

theorem restore_empty_snapshot_fails:
  assumes "filesFromSnapshot (diff_files snap) = []"
  shows "handleRestoreSnapshot st snapshotId (Response ok status statusText snap) =
           (st, ErrorToast (if ok then ''Snapshot has no files''
                            else ''HTTP '' @ string_of_nat status @ '': '' @ statusText))"
  using assms by (simp add: handleRestoreSnapshot_def)

theorem restore_empty_snapshot_fails_witness:
  "filesFromSnapshot (diff_files \<lparr>diff_files = FilesRecord [], timestamp = ''t''\<rparr>) = []
   \<and> handleRestoreSnapshot
        \<lparr>snapshotFiles = [], isViewingSnapshot = False, currentSnapshotId = None\<rparr>
        ''snap1'' (Response True 200 ''OK'' \<lparr>diff_files = FilesRecord [], timestamp = ''t''\<rparr>) =
       (\<lparr>snapshotFiles = [], isViewingSnapshot = False, currentSnapshotId = None\<rparr>,
        ErrorToast ''Snapshot has no files'')"
  using restore_empty_snapshot_fails
    [of "\<lparr>diff_files = FilesRecord [], timestamp = ''t''\<rparr>"
        "\<lparr>snapshotFiles = [], isViewingSnapshot = False, currentSnapshotId = None\<rparr>"
        "''snap1''" True 200 "''OK''"]
  by simp

text \<open>The three ways a stored diff normalizes to no files.\<close>

lemma filesFromSnapshot_empty_iff:
  "filesFromSnapshot f = [] \<longleftrightarrow> f = FilesAbsent \<or> f = FilesArray [] \<or> f = FilesRecord []"
  by (cases f) auto

text \<open>
  C7. The normalization does not depend on the shape: a legacy array and an object with the
  same path and content pairs in the same order normalize to the same list, and in any
  order to the same File Set; \<^verbatim>\<open>[{path: "a.ts", content: "x"}]\<close> and \<^verbatim>\<open>{"a.ts": "x"}\<close>
  normalize to the same result.
\<close>

theorem restore_shape_independent:
  "(map path_content xs = es \<longrightarrow>
      filesFromSnapshot (FilesArray xs) = filesFromSnapshot (FilesRecord es))
   \<and> (set (map path_content xs) = set es \<longrightarrow>
        file_set (filesFromSnapshot (FilesArray xs)) =
        file_set (filesFromSnapshot (FilesRecord es)))"
proof (intro conjI impI)
  assume "map path_content xs = es"
  then show "filesFromSnapshot (FilesArray xs) = filesFromSnapshot (FilesRecord es)"
    by (induction xs arbitrary: es) (auto split: file_obj.splits)
next
  have a: "file_set (filesFromSnapshot (FilesArray xs)) = set (map path_content xs)"
    by (induction xs) (auto simp: file_set_def split: file_obj.splits)
  have r: "file_set (filesFromSnapshot (FilesRecord es)) = set es"
    by (induction es) (auto simp: file_set_def)
  assume "set (map path_content xs) = set es"
  with a r show "file_set (filesFromSnapshot (FilesArray xs)) =
      file_set (filesFromSnapshot (FilesRecord es))"
    by simp
qed

theorem restore_shape_independent_witness:
  "map path_content [FileObj ''a.ts'' ''x''] = [(''a.ts'', ''x'')]
   \<and> set (map path_content [FileObj ''a.ts'' ''x'']) = set [(''a.ts'', ''x'')]
   \<and> filesFromSnapshot (FilesArray [FileObj ''a.ts'' ''x'']) =
       filesFromSnapshot (FilesRecord [(''a.ts'', ''x'')])
   \<and> file_set (filesFromSnapshot (FilesArray [FileObj ''a.ts'' ''x''])) =
       file_set (filesFromSnapshot (FilesRecord [(''a.ts'', ''x'')]))
   \<and> filesFromSnapshot (FilesRecord [(''a.ts'', ''x'')]) =
       [\<lparr>name = ''a.ts'', path = ''a.ts'', type = ''file'', content = ''x''\<rparr>]"
  using restore_shape_independent [of "[FileObj ''a.ts'' ''x'']" "[(''a.ts'', ''x'')]"]
  by (simp add: file_name_def)

text \<open>
  C9. A restore that fails, because \<^verbatim>\<open>fetch\<close> rejects, the response is not OK or the
  normalized file list is empty, leaves the view state as it was: \<^verbatim>\<open>isViewingSnapshot\<close>,
  \<^verbatim>\<open>snapshotFiles\<close> and \<^verbatim>\<open>currentSnapshotId\<close> keep their values, and the handler shows the
  destructive toast.
\<close>

theorem restore_failure_keeps_view_state:
  assumes "r = Rejected msg \<or> r = Response False status statusText snap
           \<or> (r = Response True status statusText snap
               \<and> filesFromSnapshot (diff_files snap) = [])"
  shows "isViewingSnapshot (fst (handleRestoreSnapshot st snapshotId r)) = isViewingSnapshot st
       \<and> snapshotFiles (fst (handleRestoreSnapshot st snapshotId r)) = snapshotFiles st
       \<and> currentSnapshotId (fst (handleRestoreSnapshot st snapshotId r)) = currentSnapshotId st
       \<and> fst (handleRestoreSnapshot st snapshotId r) = st
       \<and> (\<exists>e. snd (handleRestoreSnapshot st snapshotId r) = ErrorToast e)"
  using assms by (auto simp: handleRestoreSnapshot_def)

theorem restore_failure_keeps_view_state_witness:
  "handleRestoreSnapshot
     \<lparr>snapshotFiles = [\<lparr>name = ''a.ts'', path = ''a.ts'', type = ''file'', content = ''x''\<rparr>],
      isViewingSnapshot = True, currentSnapshotId = Some ''snap1''\<rparr>
     ''snap2''
     (Response False 404 ''Not Found'' \<lparr>diff_files = FilesAbsent, timestamp = []\<rparr>) =
   (\<lparr>snapshotFiles = [\<lparr>name = ''a.ts'', path = ''a.ts'', type = ''file'', content = ''x''\<rparr>],
     isViewingSnapshot = True, currentSnapshotId = Some ''snap1''\<rparr>,
    ErrorToast ''HTTP 404: Not Found'')"
  using restore_failure_keeps_view_state
    [of "Response False 404 ''Not Found'' \<lparr>diff_files = FilesAbsent, timestamp = []\<rparr>"
        msg 404 "''Not Found''" "\<lparr>diff_files = FilesAbsent, timestamp = []\<rparr>"
        "\<lparr>snapshotFiles =
            [\<lparr>name = ''a.ts'', path = ''a.ts'', type = ''file'', content = ''x''\<rparr>],
          isViewingSnapshot = True, currentSnapshotId = Some ''snap1''\<rparr>"
        "''snap2''"]
  by (simp add: handleRestoreSnapshot_def string_of_nat.simps)

text \<open>A restore that succeeds switches to the read-only view of a non-empty file list.\<close>

lemma restore_success:
  assumes "filesFromSnapshot (diff_files snap) \<noteq> []"
  shows "handleRestoreSnapshot st snapshotId (Response True status statusText snap) =
           (st\<lparr>snapshotFiles := filesFromSnapshot (diff_files snap),
               isViewingSnapshot := True,
               currentSnapshotId := Some snapshotId\<rparr>,
            SnapshotLoaded (timestamp snap))"
  using assms by (simp add: handleRestoreSnapshot_def Let_def)

section \<open>The router: results\<close>

subsection \<open>What \<^verbatim>\<open>broadcast\<close> and the release of a membership change\<close>

lemma broadcast_fields [simp]:
  "activeConnections (broadcast s m e st) = activeConnections st"
  "vars (broadcast s m e st) = vars st"
  "readyState (broadcast s m e st) = readyState st"
  "logged (broadcast s m e st) = logged st"
  by (simp_all add: broadcast_def split: option.splits)

lemma sent_broadcast:
  "sent (broadcast s m e st) =
     sent st @ map (\<lambda>c. (c, m))
       (filter (\<lambda>c. Some c \<noteq> e \<and> readyState st c = OPEN) (group st s))"
  by (simp add: broadcast_def group_def split: option.splits)

lemma release_fields [simp]:
  "vars (release s ws st) = vars st"
  "readyState (release s ws st) = readyState st"
  "sent (release s ws st) = sent st"
  "logged (release s ws st) = logged st"
  by (simp_all add: release_def Let_def split: option.splits)

lemma activeConnections_release:
  "activeConnections (release s ws st) =
     (case activeConnections st s of
        None \<Rightarrow> activeConnections st
      | Some g \<Rightarrow>
          if set_delete ws g = [] then (activeConnections st)(s := None)
          else (activeConnections st)(s \<mapsto> set_delete ws g))"
  by (simp add: release_def Let_def split: option.splits)

lemma release_at:
  "activeConnections (release s ws st) s =
     (if set_delete ws (group st s) = [] then None else Some (set_delete ws (group st s)))"
  by (simp add: activeConnections_release group_def set_delete_def split: option.splits)

lemma group_release:
  "group (release s ws st) s = set_delete ws (group st s)"
  by (simp add: group_def activeConnections_release set_delete_def split: option.splits)

lemma group_readyState_update [simp]:
  "group (st\<lparr>readyState := r\<rparr>) s = group st s"
  by (simp add: group_def)

lemma set_add_nonempty [simp]: "set_add c g \<noteq> []"
  by (auto simp: set_add_def)

lemma filter_open_after_delete:
  "filter (\<lambda>c. Some c \<noteq> Some ws \<and> (r(ws := CLOSED)) c = OPEN) (set_delete ws g) =
   filter (\<lambda>c. Some c \<noteq> Some ws \<and> r c = OPEN) g"
  by (induction g) (auto simp: set_delete_def)

subsection \<open>The invariants hold in every reachable state\<close>

lemma groups_nonempty_release: "groups_nonempty st \<Longrightarrow> groups_nonempty (release s ws st)"
  by (auto simp: groups_nonempty_def activeConnections_release split: option.splits if_splits)

lemma groups_nonempty_update [simp]:
  "groups_nonempty (st\<lparr>sent := x\<rparr>) = groups_nonempty st"
  "groups_nonempty (st\<lparr>vars := v\<rparr>) = groups_nonempty st"
  "groups_nonempty (st\<lparr>readyState := r\<rparr>) = groups_nonempty st"
  "groups_nonempty (st\<lparr>logged := l\<rparr>) = groups_nonempty st"
  by (simp_all add: groups_nonempty_def)

lemma groups_nonempty_broadcast [simp]:
  "groups_nonempty (broadcast s m e st) = groups_nonempty st"
  by (simp add: groups_nonempty_def)

lemma groups_nonempty_on_message:
  "groups_nonempty st \<Longrightarrow> groups_nonempty (on_message ws now m st)"
proof (cases m)
  case (JoinSession sid uid)
  assume "groups_nonempty st"
  then show ?thesis
    unfolding JoinSession
    by (auto simp: groups_nonempty_def Let_def split: option.splits if_splits)
next
  case LeaveSession
  assume "groups_nonempty st"
  then show ?thesis
    unfolding LeaveSession
    by (auto simp: Let_def groups_nonempty_release split: option.splits)
qed (auto split: option.splits)

lemma groups_nonempty_on_close:
  "groups_nonempty st \<Longrightarrow> groups_nonempty (on_close ws now st)"
  by (auto simp: on_close_def Let_def groups_nonempty_release split: option.splits)

lemma groups_nonempty_step: "groups_nonempty st \<Longrightarrow> groups_nonempty (step e st)"
  by (cases e) (simp_all add: groups_nonempty_on_message groups_nonempty_on_close)

lemma groups_nonempty_run: "groups_nonempty st \<Longrightarrow> groups_nonempty (run st evs)"
  by (induction evs arbitrary: st) (simp_all add: groups_nonempty_step)

lemma groups_nonempty_init: "groups_nonempty init_router"
  by (simp add: groups_nonempty_def init_router_def)

lemma joined_has_user_on_message:
  "joined_has_user st \<Longrightarrow> joined_has_user (on_message ws now m st)"
proof (cases m)
  case (JoinSession sid uid)
  assume "joined_has_user st"
  then show ?thesis
    unfolding JoinSession
    by (auto simp: joined_has_user_def Let_def split: option.splits if_splits)
next
  case LeaveSession
  assume "joined_has_user st"
  then show ?thesis
    unfolding LeaveSession
    by (auto simp: joined_has_user_def Let_def split: option.splits)
qed (auto simp: joined_has_user_def split: option.splits)

lemma joined_has_user_on_close:
  "joined_has_user st \<Longrightarrow> joined_has_user (on_close ws now st)"
  by (auto simp: on_close_def joined_has_user_def Let_def split: option.splits)

lemma joined_has_user_run: "joined_has_user st \<Longrightarrow> joined_has_user (run st evs)"
proof (induction evs arbitrary: st)
  case Nil
  then show ?case by simp
next
  case (Cons e evs)
  then show ?case
    by (cases e) (simp_all add: joined_has_user_on_message joined_has_user_on_close)
qed

lemma joined_has_user_init: "joined_has_user init_router"
  by (simp add: joined_has_user_def init_router_def)

subsection \<open>The registry\<close>

text \<open>
  C2. After every sequence of events, a session identifier is a key of \<^verbatim>\<open>activeConnections\<close>
  exactly when its group is not empty; and when a connection is the only member of the group
  of its session, its \<^verbatim>\<open>leave-session\<close> and its close delete the entry of the group.
\<close>

theorem registry_key_iff_group_nonempty:
  "(s \<in> dom (activeConnections (run init_router evs))) = (group (run init_router evs) s \<noteq> [])
   \<and> (currentSessionId (vars (run init_router evs) ws) = Some s \<and> s \<noteq> []
        \<and> group (run init_router evs) s = [ws] \<longrightarrow>
       activeConnections (step (Message ws now LeaveSession) (run init_router evs)) s = None
       \<and> activeConnections (step (Close ws now) (run init_router evs)) s = None)"
proof -
  define st where "st = run init_router evs"
  have g: "groups_nonempty st"
    unfolding st_def by (rule groups_nonempty_run [OF groups_nonempty_init])
  have j: "joined_has_user st"
    unfolding st_def by (rule joined_has_user_run [OF joined_has_user_init])
  have a: "(s \<in> dom (activeConnections st)) = (group st s \<noteq> [])"
    using g by (auto simp: groups_nonempty_def group_def split: option.splits)
  have b: "activeConnections (step (Message ws now LeaveSession) st) s = None
      \<and> activeConnections (step (Close ws now) st) s = None"
    if h: "currentSessionId (vars st ws) = Some s" "s \<noteq> []" "group st s = [ws]"
  proof -
    have u: "truthy_str (userId (vars st ws))"
      using j h by (simp add: joined_has_user_def)
    have r: "activeConnections st s = Some [ws]"
      using h(3) by (simp add: group_def split: option.splits)
    show ?thesis
      using h u r
      by (simp add: on_close_def Let_def activeConnections_release set_delete_def)
  qed
  show ?thesis
    using a b unfolding st_def by blast
qed

theorem registry_key_iff_group_nonempty_witness:
  "currentSessionId
     (vars (run init_router [Message 1 10 (JoinSession (Some ''s1'') (Some ''u1''))]) 1) =
     Some ''s1''
   \<and> ''s1'' \<noteq> []
   \<and> group (run init_router [Message 1 10 (JoinSession (Some ''s1'') (Some ''u1''))]) ''s1'' = [1]
   \<and> activeConnections
        (step (Message 1 11 LeaveSession)
           (run init_router [Message 1 10 (JoinSession (Some ''s1'') (Some ''u1''))])) ''s1'' = None
   \<and> activeConnections
        (step (Close 1 11)
           (run init_router [Message 1 10 (JoinSession (Some ''s1'') (Some ''u1''))])) ''s1'' = None
   \<and> ''s1'' \<in> dom (activeConnections
          (run init_router [Message 1 10 (JoinSession (Some ''s1'') (Some ''u1''))]))
   \<and> ''s2'' \<notin> dom (activeConnections
          (run init_router [Message 1 10 (JoinSession (Some ''s1'') (Some ''u1''))]))"
proof -
  have h: "currentSessionId
     (vars (run init_router [Message 1 10 (JoinSession (Some ''s1'') (Some ''u1''))]) 1) =
     Some ''s1''
   \<and> ''s1'' \<noteq> []
   \<and> group (run init_router [Message 1 10 (JoinSession (Some ''s1'') (Some ''u1''))]) ''s1'' = [1]"
    by (simp add: init_router_def Let_def broadcast_def set_add_def group_def)
  have k: "group (run init_router [Message 1 10 (JoinSession (Some ''s1'') (Some ''u1''))]) ''s2'' = []"
    by (simp add: init_router_def Let_def broadcast_def set_add_def group_def)
  show ?thesis
    using h k
      registry_key_iff_group_nonempty
        [of "''s1''" "[Message 1 10 (JoinSession (Some ''s1'') (Some ''u1''))]" 1 11]
      registry_key_iff_group_nonempty
        [of "''s2''" "[Message 1 10 (JoinSession (Some ''s1'') (Some ''u1''))]" 1 11]
    by simp
qed

subsection \<open>Broadcast\<close>

text \<open>
  C3, as claimed: a broadcast reaches every member of the group other than the excluded
  connection. It does not: \<^verbatim>\<open>broadcast\<close> sends only to members whose \<^verbatim>\<open>readyState\<close> is \<^verbatim>\<open>OPEN\<close>.
  After connection 1 has joined session A, then session B, and closed, it is still a member
  of the group of A; a broadcast to A that excludes connection 2 sends it nothing.
\<close>

theorem broadcast_skips_closed_member:
  "1 \<in> set (group (run init_router rejoin_close_events) ''A'')
   \<and> (1::conn) \<noteq> 2
   \<and> (1, ParticipantJoined (Some ''u3'') 5) \<notin>
       set (delivered (run init_router rejoin_close_events)
              (broadcast ''A'' (ParticipantJoined (Some ''u3'') 5) (Some 2)
                 (run init_router rejoin_close_events)))"
  by (simp add: rejoin_close_events_def rejoin_events_def init_router_def Let_def broadcast_def
      set_add_def group_def on_close_def release_def set_delete_def delivered_def)

text \<open>
  C3, amended: \<^verbatim>\<open>broadcast(sessionId, m, c)\<close> never sends \<open>m\<close> to \<open>c\<close>; it sends \<open>m\<close> to every
  other member of the group whose \<^verbatim>\<open>readyState\<close> is \<^verbatim>\<open>OPEN\<close> and to no member whose
  \<^verbatim>\<open>readyState\<close> is not; and when the map has no group for \<open>sessionId\<close> it changes nothing.
\<close>

theorem broadcast_reaches_open_members:
  "(c, m) \<notin> set (delivered st (broadcast sessionId m (Some c) st))
   \<and> (\<forall>x \<in> set (group st sessionId). x \<noteq> c \<and> readyState st x = OPEN \<longrightarrow>
         (x, m) \<in> set (delivered st (broadcast sessionId m (Some c) st)))
   \<and> (\<forall>x \<in> set (group st sessionId). readyState st x \<noteq> OPEN \<longrightarrow>
         (x, m) \<notin> set (delivered st (broadcast sessionId m (Some c) st)))
   \<and> (activeConnections st sessionId = None \<longrightarrow> broadcast sessionId m (Some c) st = st)"
  by (auto simp: delivered_def sent_broadcast) (simp add: broadcast_def)

theorem broadcast_reaches_open_members_witness:
  "2 \<in> set (group (run init_router rejoin_close_events) ''A'')
   \<and> (2::conn) \<noteq> 3
   \<and> readyState (run init_router rejoin_close_events) 2 = OPEN
   \<and> (2, ParticipantJoined (Some ''u3'') 5) \<in>
       set (delivered (run init_router rejoin_close_events)
              (broadcast ''A'' (ParticipantJoined (Some ''u3'') 5) (Some 3)
                 (run init_router rejoin_close_events)))
   \<and> 1 \<in> set (group (run init_router rejoin_close_events) ''A'')
   \<and> readyState (run init_router rejoin_close_events) 1 \<noteq> OPEN
   \<and> (1, ParticipantJoined (Some ''u3'') 5) \<notin>
       set (delivered (run init_router rejoin_close_events)
              (broadcast ''A'' (ParticipantJoined (Some ''u3'') 5) (Some 3)
                 (run init_router rejoin_close_events)))
   \<and> (3, ParticipantJoined (Some ''u3'') 5) \<notin>
       set (delivered (run init_router rejoin_close_events)
              (broadcast ''A'' (ParticipantJoined (Some ''u3'') 5) (Some 3)
                 (run init_router rejoin_close_events)))
   \<and> activeConnections (run init_router rejoin_close_events) ''B'' = None
   \<and> broadcast ''B'' (ParticipantJoined (Some ''u3'') 5) (Some 3)
        (run init_router rejoin_close_events) = run init_router rejoin_close_events"
proof -
  let ?st = "run init_router rejoin_close_events"
  let ?m = "ParticipantJoined (Some ''u3'') 5"
  have g: "group ?st ''A'' = [2, 1]"
    by (simp add: rejoin_close_events_def rejoin_events_def init_router_def Let_def
        broadcast_def set_add_def group_def on_close_def release_def set_delete_def)
  have r2: "readyState ?st 2 = OPEN"
    by (simp add: rejoin_close_events_def rejoin_events_def init_router_def Let_def
        broadcast_def set_add_def on_close_def release_def set_delete_def)
  have r1: "readyState ?st 1 \<noteq> OPEN"
    by (simp add: rejoin_close_events_def rejoin_events_def init_router_def Let_def
        broadcast_def set_add_def on_close_def release_def set_delete_def)
  have n: "activeConnections ?st ''B'' = None"
    by (simp add: rejoin_close_events_def rejoin_events_def init_router_def Let_def
        broadcast_def set_add_def on_close_def release_def set_delete_def)
  have m2: "2 \<in> set (group ?st ''A'')" and m1: "1 \<in> set (group ?st ''A'')"
    unfolding g by simp_all
  have d: "(2::conn) \<noteq> 3"
    by simp
  note a = broadcast_reaches_open_members [of 3 ?m ?st "''A''"]
  note b = broadcast_reaches_open_members [of 3 ?m ?st "''B''"]
  show ?thesis
    using m2 m1 d r2 r1 n a b by blast
qed

subsection \<open>Joining a second session\<close>

text \<open>
  C4. The claim: a connection that joins session B while joined to session A is afterwards
  a member of the group of B and no longer of the group of A. The \<^verbatim>\<open>join-session\<close> case
  overwrites \<^verbatim>\<open>currentSessionId\<close> and adds the connection to the group of B, and never deletes
  it from the group of A: after connection 1 has joined A and then B, it is a member of both
  groups, and an \<^verbatim>\<open>editor-change\<close> that connection 2 sends in session A is delivered to it. No
  \<^verbatim>\<open>participant-left\<close> is sent.
\<close>

theorem rejoin_keeps_old_membership:
  "currentSessionId (vars (run init_router rejoin_events) 1) = Some ''B''
   \<and> group (run init_router rejoin_events) ''B'' = [1]
   \<and> group (run init_router rejoin_events) ''A'' = [2, 1]
   \<and> sent (run init_router rejoin_events) = [(2, ParticipantJoined (Some ''u1'') 2)]
   \<and> delivered (run init_router rejoin_events)
       (step (Message 2 4 (EditorChange ''hello'' ''a.ts'')) (run init_router rejoin_events)) =
       [(1, EditorChangeOut (Some ''u2'') ''hello'' ''a.ts'' 4)]"
  by (simp add: rejoin_events_def init_router_def Let_def broadcast_def
      set_add_def group_def delivered_def)

text \<open>
  The parts of the claim that hold: after a \<^verbatim>\<open>join-session\<close> with a session identifier the
  connection is a member of the group of that session, and the only messages sent are
  \<^verbatim>\<open>participant-joined\<close> messages to the other open members of that group.
\<close>

lemma join_session_effect:
  assumes "s \<noteq> []"
  shows "ws \<in> set (group (on_message ws now (JoinSession (Some s) uid) st) s)
       \<and> currentSessionId (vars (on_message ws now (JoinSession (Some s) uid) st) ws) = Some s
       \<and> delivered st (on_message ws now (JoinSession (Some s) uid) st) =
           map (\<lambda>c. (c, ParticipantJoined (if truthy_str uid then uid else Some ''anonymous'') now))
             (filter (\<lambda>c. c \<noteq> ws \<and> readyState st c = OPEN) (set_add ws (group st s)))"
  using assms
  by (auto simp: Let_def group_def sent_broadcast delivered_def set_add_def
      split: option.splits)

subsection \<open>Close and leave\<close>

text \<open>
  C5. For a connection that is joined to a session, in any reachable state, the close of
  the transport and a \<^verbatim>\<open>leave-session\<close> message leave the same map \<^verbatim>\<open>activeConnections\<close> and send
  the same messages: \<^verbatim>\<open>participant-left\<close> with the connection's user and the time, to the other
  open members of the group. The connection is no longer in the group, the group is deleted
  when it had no other member, and a close that follows the \<^verbatim>\<open>leave-session\<close> changes neither
  the map nor what has been sent.
\<close>

theorem close_same_effect_as_leave:
  assumes "currentSessionId (vars (run init_router evs) ws) = Some s" and "s \<noteq> []"
  shows "activeConnections (step (Close ws now) (run init_router evs)) =
           activeConnections (step (Message ws now LeaveSession) (run init_router evs))
       \<and> sent (step (Close ws now) (run init_router evs)) =
           sent (step (Message ws now LeaveSession) (run init_router evs))
       \<and> delivered (run init_router evs) (step (Close ws now) (run init_router evs)) =
           map (\<lambda>c. (c, ParticipantLeft (userId (vars (run init_router evs) ws)) now))
             (filter (\<lambda>c. c \<noteq> ws \<and> readyState (run init_router evs) c = OPEN)
                (group (run init_router evs) s))
       \<and> ws \<notin> set (group (step (Close ws now) (run init_router evs)) s)
       \<and> (set (group (run init_router evs) s) \<subseteq> {ws} \<longrightarrow>
            activeConnections (step (Close ws now) (run init_router evs)) s = None)
       \<and> activeConnections
           (step (Close ws later) (step (Message ws now LeaveSession) (run init_router evs))) =
           activeConnections (step (Message ws now LeaveSession) (run init_router evs))
       \<and> sent (step (Close ws later) (step (Message ws now LeaveSession) (run init_router evs))) =
           sent (step (Message ws now LeaveSession) (run init_router evs))"
proof -
  define st where "st = run init_router evs"
  have j: "joined_has_user st"
    unfolding st_def by (rule joined_has_user_run [OF joined_has_user_init])
  have cs: "currentSessionId (vars st ws) = Some s"
    using assms(1) by (simp add: st_def)
  have u: "truthy_str (userId (vars st ws))"
    using j cs assms(2) by (simp add: joined_has_user_def)
  let ?left = "ParticipantLeft (userId (vars st ws)) now"
  let ?open = "filter (\<lambda>c. c \<noteq> ws \<and> readyState st c = OPEN) (group st s)"
  have close: "on_close ws now st =
      broadcast s ?left (Some ws) (release s ws (st\<lparr>readyState := (readyState st)(ws := CLOSED)\<rparr>))"
    using cs u assms(2) by (simp add: on_close_def Let_def)
  have leave: "on_message ws now LeaveSession st =
      (release s ws (broadcast s ?left (Some ws) st))
        \<lparr>vars := (vars st)(ws := \<lparr>currentSessionId = None, userId = None\<rparr>)\<rparr>"
    using cs assms(2) by (simp add: Let_def)
  have 1: "activeConnections (on_close ws now st) =
      activeConnections (on_message ws now LeaveSession st)"
    unfolding close leave by (simp add: activeConnections_release split: option.splits)
  have sc: "sent (on_close ws now st) = sent st @ map (\<lambda>c. (c, ?left)) ?open"
    unfolding close
    using filter_open_after_delete [of ws "readyState st" "group st s"]
    by (simp add: sent_broadcast group_release)
  have sl: "sent (on_message ws now LeaveSession st) = sent st @ map (\<lambda>c. (c, ?left)) ?open"
    unfolding leave by (simp add: sent_broadcast)
  have 2: "sent (on_close ws now st) = sent (on_message ws now LeaveSession st)"
    by (simp only: sc sl)
  have 3: "delivered st (on_close ws now st) = map (\<lambda>c. (c, ?left)) ?open"
    unfolding delivered_def sc by simp
  have gc: "group (on_close ws now st) s = set_delete ws (group st s)"
    unfolding close using group_release [of s ws] by (simp add: group_def)
  have 4: "ws \<notin> set (group (on_close ws now st) s)"
    unfolding gc by (simp add: set_delete_def)
  have 5: "set (group st s) \<subseteq> {ws} \<longrightarrow> activeConnections (on_close ws now st) s = None"
  proof
    assume "set (group st s) \<subseteq> {ws}"
    then have "set_delete ws (group st s) = []"
      by (auto simp: set_delete_def filter_empty_conv)
    then show "activeConnections (on_close ws now st) s = None"
      unfolding close by (simp add: release_at)
  qed
  have after: "currentSessionId (vars (on_message ws now LeaveSession st) ws) = None"
    unfolding leave by simp
  have idle: "on_close ws later st' = st'\<lparr>readyState := (readyState st')(ws := CLOSED)\<rparr>"
    if "currentSessionId (vars st' ws) = None" for st'
    using that by (simp add: on_close_def Let_def)
  have 6: "activeConnections (on_close ws later (on_message ws now LeaveSession st)) =
      activeConnections (on_message ws now LeaveSession st)"
    unfolding idle [OF after] by simp
  have 7: "sent (on_close ws later (on_message ws now LeaveSession st)) =
      sent (on_message ws now LeaveSession st)"
    unfolding idle [OF after] by simp
  show ?thesis
    unfolding step.simps st_def [symmetric]
    using 1 2 3 4 5 6 7 by blast
qed

theorem close_same_effect_as_leave_witness:
  "currentSessionId (vars (run init_router two_peers_events) 2) = Some ''s1''
   \<and> ''s1'' \<noteq> []
   \<and> activeConnections (step (Close 2 7) (run init_router two_peers_events)) =
       activeConnections (step (Message 2 7 LeaveSession) (run init_router two_peers_events))
   \<and> sent (step (Close 2 7) (run init_router two_peers_events)) =
       sent (step (Message 2 7 LeaveSession) (run init_router two_peers_events))
   \<and> sent (step (Message 2 7 LeaveSession) (run init_router two_peers_events)) =
       [(1, ParticipantJoined (Some ''u2'') 2), (1, ParticipantLeft (Some ''u2'') 7)]
   \<and> group (step (Close 2 7) (run init_router two_peers_events)) ''s1'' = [1]
   \<and> 2 \<notin> set (group (step (Close 2 7) (run init_router two_peers_events)) ''s1'')"
proof -
  have h: "currentSessionId (vars (run init_router two_peers_events) 2) = Some ''s1''"
    by (simp add: two_peers_events_def init_router_def Let_def broadcast_def set_add_def)
  have n: "''s1'' \<noteq> []"
    by simp
  have e: "sent (step (Message 2 7 LeaveSession) (run init_router two_peers_events)) =
       [(1, ParticipantJoined (Some ''u2'') 2), (1, ParticipantLeft (Some ''u2'') 7)]"
    by (simp add: two_peers_events_def init_router_def Let_def broadcast_def set_add_def
        release_def set_delete_def)
  have g: "group (step (Close 2 7) (run init_router two_peers_events)) ''s1'' = [1]"
    by (simp add: two_peers_events_def init_router_def Let_def broadcast_def set_add_def
        release_def set_delete_def on_close_def group_def)
  show ?thesis
    using h n e g close_same_effect_as_leave [OF h n, of 7 8] by blast
qed

subsection \<open>Messages of a connection without a session\<close>

text \<open>
  C8. An \<^verbatim>\<open>editor-change\<close> or \<^verbatim>\<open>cursor-move\<close> message of a connection whose \<^verbatim>\<open>currentSessionId\<close>
  is not set changes nothing: nothing is sent, the map \<^verbatim>\<open>activeConnections\<close> is the same, no
  error is logged, and the events that follow run as if the message had not come.
\<close>

theorem unjoined_edit_ignored:
  assumes "\<not> truthy_str (currentSessionId (vars st ws))"
    and "m = EditorChange code filePath \<or> m = CursorMove position filePath"
  shows "step (Message ws now m) st = st
       \<and> delivered st (step (Message ws now m) st) = []
       \<and> activeConnections (step (Message ws now m) st) = activeConnections st
       \<and> logged (step (Message ws now m) st) = logged st
       \<and> run st (Message ws now m # evs) = run st evs"
proof -
  have "step (Message ws now m) st = st"
    using assms by (auto split: option.splits)
  then show ?thesis
    by (simp add: delivered_def)
qed

theorem unjoined_edit_ignored_witness:
  "\<not> truthy_str (currentSessionId (vars init_router 1))
   \<and> step (Message 1 3 (EditorChange ''hello'' ''a.ts'')) init_router = init_router
   \<and> step (Message 1 3 (CursorMove ''{line: 1}'' ''a.ts'')) init_router = init_router
   \<and> delivered init_router (step (Message 1 3 (EditorChange ''hello'' ''a.ts'')) init_router) = []
   \<and> run init_router
        [Message 1 3 (EditorChange ''hello'' ''a.ts''),
         Message 1 4 (JoinSession (Some ''s1'') (Some ''u1''))] =
       run init_router [Message 1 4 (JoinSession (Some ''s1'') (Some ''u1''))]"
proof -
  have h: "\<not> truthy_str (currentSessionId (vars init_router 1))"
    by (simp add: init_router_def)
  have e: "EditorChange ''hello'' ''a.ts'' = EditorChange ''hello'' ''a.ts''
      \<or> EditorChange ''hello'' ''a.ts'' = CursorMove ''{line: 1}'' ''a.ts''"
    by simp
  have c: "CursorMove ''{line: 1}'' ''a.ts'' = EditorChange ''hello'' ''a.ts''
      \<or> CursorMove ''{line: 1}'' ''a.ts'' = CursorMove ''{line: 1}'' ''a.ts''"
    by simp
  show ?thesis
    using h
      unjoined_edit_ignored
        [OF h e, of 3 "[Message 1 4 (JoinSession (Some ''s1'') (Some ''u1''))]"]
      unjoined_edit_ignored [OF h c, of 3 "[]"]
    by blast
qed

section \<open>The examples of the specification\<close>

text \<open>The three captures of the specification's examples.\<close>

lemma example_first_capture:
  "snapshot_diff None (FilesRecord [(''a.ts'', ''line1\<newline>line2'')]) =
     Inr \<lparr>files = FilesRecord [(''a.ts'', ''line1\<newline>line2'')],
          metadata = \<lparr>linesChanged = 2, filesModified = [''a.ts'']\<rparr>\<rparr>"
  by (simp add: snapshot_diff_def keys_def values_of_def line_count_def)

lemma example_one_line_more:
  "snapshot_diff (Some (FilesRecord [(''a.ts'', ''x\<newline>y'')]))
       (FilesRecord [(''a.ts'', ''x\<newline>y\<newline>z'')]) =
     Inr \<lparr>files = FilesRecord [(''a.ts'', ''x\<newline>y\<newline>z'')],
          metadata = \<lparr>linesChanged = 1, filesModified = [''a.ts'']\<rparr>\<rparr>"
  by (simp add: snapshot_diff_def keys_def line_count_def prev_content_def abs_diff_def)

lemma example_file_removed:
  "snapshot_diff (Some (FilesRecord [(''a.ts'', ''x\<newline>y'')])) (FilesRecord []) =
     Inr \<lparr>files = FilesRecord [],
          metadata = \<lparr>linesChanged = 2, filesModified = []\<rparr>\<rparr>"
  by (simp add: snapshot_diff_def keys_def line_count_def object_prototype_keys_def)

text \<open>
  The end-to-end scenario: peer 1 joins s1 as u1, peer 2 joins s1 as u2, and peer 1 sends an
  \<^verbatim>\<open>editor-change\<close>. Peer 1 receives the one \<^verbatim>\<open>participant-joined\<close> of u2 and peer 2 the
  \<^verbatim>\<open>editor-change\<close> of u1; neither receives its own message.
\<close>

lemma example_end_to_end:
  "sent (run init_router (two_peers_events @ [Message 1 3 (EditorChange ''hello'' ''a.ts'')])) =
     [(1, ParticipantJoined (Some ''u2'') 2),
      (2, EditorChangeOut (Some ''u1'') ''hello'' ''a.ts'' 3)]"
  by (simp add: two_peers_events_def init_router_def Let_def broadcast_def set_add_def)

end
